theory Spec2Isabelle
  imports Complex_Main
begin

section \<open>Smart Bus: data model\<close>

text \<open>
  The two bus-tracking variants keep their state in plain JavaScript objects.  JavaScript
  numbers are modelled as follows: coordinates, progress and distances are \<^typ>\<open>real\<close>
  (the source computes with IEEE doubles; rounding of doubles is not modelled), array
  indices are \<^typ>\<open>nat\<close>, the tick counter \<open>stopTimer\<close> is \<^typ>\<open>int\<close>.
  Reading a property of \<open>undefined\<close> throws a \<open>TypeError\<close>, which is the only
  exception the modelled code can raise.
\<close>

datatype error = TypeError

text \<open>An object with \<open>lat\<close> and \<open>lng\<close>: the user location; stops and buses extend it.\<close>

record latlng =
  lat :: real
  lng :: real

text \<open>An entry of \<open>stops.json\<close>.\<close>

record stop = latlng +
  name :: string

text \<open>
  An entry of \<open>busPositions\<close> in the interval-timer variant
  (\<open>{ id, lat, lng, index, nextIndex, progress, stopTimer }\<close>).
\<close>

record bus = latlng +
  bus_id :: string
  index :: nat
  nextIndex :: nat
  progress :: real
  stopTimer :: int

section \<open>Interval-timer variant: the simulator tick\<close>

text \<open>
  The callback given to \<open>prev.map\<close> inside \<open>setInterval\<close>.  \<open>stops[index]\<close> and
  \<open>stops[nextIndex]\<close> are only dereferenced after the dwell test, so an index outside
  the table throws only on a moving tick.  The position is computed from \<open>from\<close> and
  \<open>to\<close>, which were read before the indices are advanced.
\<close>

definition tick :: "stop list \<Rightarrow> bus \<Rightarrow> error + bus" where
  "tick stops b =
     (if stopTimer b < 20 then Inr (b\<lparr>stopTimer := stopTimer b + 1\<rparr>)
      else
        let newProgress = progress b + 1 / 100;
            wrap = (newProgress \<ge> 1);
            newIndex = (if wrap then nextIndex b else index b);
            newNextIndex = (if wrap then (nextIndex b + 1) mod length stops else nextIndex b);
            newProgress = (if wrap then 0 else newProgress);
            stopTimer' = (if wrap then 0 else stopTimer b)
        in if index b < length stops \<and> nextIndex b < length stops then
             let from = stops ! index b; to = stops ! nextIndex b;
                 newLat = lat from + (lat to - lat from) * newProgress;
                 newLng = lng from + (lng to - lng from) * newProgress
             in Inr (b\<lparr>lat := newLat, lng := newLng, index := newIndex,
                       nextIndex := newNextIndex, progress := newProgress,
                       stopTimer := stopTimer'\<rparr>)
           else Inl TypeError)"

text \<open>\<open>n\<close> consecutive ticks of one vehicle; an exception ends the run.\<close>

fun ticks :: "stop list \<Rightarrow> nat \<Rightarrow> bus \<Rightarrow> error + bus" where
  "ticks stops 0 b = Inr b"
| "ticks stops (Suc n) b =
     (case tick stops b of Inl e \<Rightarrow> Inl e | Inr b' \<Rightarrow> ticks stops n b')"

text \<open>The state updater \<open>prev => prev.map(...)\<close>: every bus is ticked, in order.\<close>

fun tick_all :: "stop list \<Rightarrow> bus list \<Rightarrow> error + bus list" where
  "tick_all stops [] = Inr []"
| "tick_all stops (b # bs) =
     (case tick stops b of Inl e \<Rightarrow> Inl e
      | Inr b' \<Rightarrow> (case tick_all stops bs of Inl e \<Rightarrow> Inl e | Inr bs' \<Rightarrow> Inr (b' # bs')))"

section \<open>Interval-timer variant: nearest stop and ETA\<close>

text \<open>
  \<open>Math.sqrt(Math.pow(to.lat - from.lat, 2) + Math.pow(to.lng - from.lng, 2))\<close>, the
  planar distance the source writes out at each use.
\<close>

definition planar_distance :: "'a latlng_scheme \<Rightarrow> 'b latlng_scheme \<Rightarrow> real" where
  "planar_distance from to = sqrt ((lat to - lat from)\<^sup>2 + (lng to - lng from)\<^sup>2)"

text \<open>
  The running minimum starts at \<open>Infinity\<close>, modelled as \<open>None\<close>; every real distance
  is below it.
\<close>

fun below :: "real \<Rightarrow> real option \<Rightarrow> bool" where
  "below d None = True"
| "below d (Some m) = (d < m)"

text \<open>
  \<open>findNearestStop\<close> of the interval-timer variant.  \<open>userLocation\<close> is \<open>null\<close> until
  the geolocation query answers.  On an empty table \<open>stops[0]\<close> is \<open>undefined\<close> and
  reading its \<open>name\<close> throws.
\<close>

definition findNearestStop :: "stop list \<Rightarrow> latlng option \<Rightarrow> error + string" where
  "findNearestStop stops userLocation =
     (case stops of
        [] \<Rightarrow> Inl TypeError
      | s0 # _ \<Rightarrow>
          (case userLocation of
             None \<Rightarrow> Inr (name s0)
           | Some u \<Rightarrow>
               Inr (name (snd (fold (\<lambda>s (minDist, nearest).
                                  let dist = planar_distance u s
                                  in if below dist minDist then (Some dist, s)
                                     else (minDist, nearest))
                                stops (None, s0))))))"

text \<open>
  The \<open>while\<close> loop of \<open>calculateETA\<close>.  It has no bound of its own, so it is a partial
  function: \<open>None\<close> means that the loop never exits.  The loop variables are \<open>distance\<close>,
  \<open>index\<close>, \<open>nextIndex\<close> and \<open>stopPauseTicks\<close>; the result is what the code after the
  loop still reads, \<open>distance\<close> and \<open>stopPauseTicks\<close>.  \<open>stops[nextIndex].name\<close> throws
  when \<open>nextIndex\<close> is outside the table, \<open>from.lat\<close> when \<open>index\<close> is.
\<close>

partial_function (option) calculateETA_loop ::
  "stop list \<Rightarrow> string \<Rightarrow> real \<Rightarrow> nat \<Rightarrow> nat \<Rightarrow> nat \<Rightarrow> (error + real \<times> nat) option" where
  "calculateETA_loop stops target distance idx nextIdx stopPauseTicks =
     (if nextIdx < length stops then
        if name (stops ! nextIdx) \<noteq> target then
          if idx < length stops then
            calculateETA_loop stops target
              (distance + planar_distance (stops ! idx) (stops ! nextIdx))
              nextIdx ((nextIdx + 1) mod length stops) (stopPauseTicks + 20)
          else Some (Inl TypeError)
        else Some (Inr (distance, stopPauseTicks))
      else Some (Inl TypeError))"

text \<open>
  \<open>calculateETA(bus, userStop)\<close>.  The callers pass \<open>stops.find(...)\<close>, which is
  \<open>undefined\<close> (here \<open>None\<close>) when no stop has the name; \<open>userStop.name\<close> then throws
  at the first loop test, after \<open>stops[nextIndex].name\<close> has been read.
\<close>

definition calculateETA :: "stop list \<Rightarrow> bus \<Rightarrow> stop option \<Rightarrow> (error + int) option" where
  "calculateETA stops b userStop =
     (case userStop of
        None \<Rightarrow> Some (Inl TypeError)
      | Some us \<Rightarrow>
          (case calculateETA_loop stops (name us) 0 (index b) (nextIndex b) 0 of
             None \<Rightarrow> None
           | Some (Inl e) \<Rightarrow> Some (Inl e)
           | Some (Inr (distance, stopPauseTicks)) \<Rightarrow>
               if index b < length stops \<and> nextIndex b < length stops then
                 let from = stops ! index b; to = stops ! nextIndex b;
                     distance = distance + planar_distance from to * (1 - progress b);
                     eta = \<lceil>distance * 100 + real stopPauseTicks * (1 / 10)\<rceil>
                 in Some (Inr (round (real_of_int eta)))
               else Some (Inl TypeError)))"

text \<open>\<open>stops.find(s => s.name === n)\<close>.\<close>

definition find_stop :: "stop list \<Rightarrow> string \<Rightarrow> stop option" where
  "find_stop stops n = find (\<lambda>s. name s = n) stops"

text \<open>
  The fare expression of \<open>buyTicket\<close>, \<open>fares[fromStop][destination]\<close>: one direction
  only.  A table is an object of objects, here a map of maps; a missing row makes the
  second subscript throw, a missing entry in a row that exists is \<open>undefined\<close>
  (\<open>None\<close>).
\<close>

type_synonym fare_table = "string \<rightharpoonup> (string \<rightharpoonup> int)"

definition buyTicket_fare :: "fare_table \<Rightarrow> string \<Rightarrow> string \<Rightarrow> error + int option" where
  "buyTicket_fare fares fromStop destination =
     (case fares fromStop of None \<Rightarrow> Inl TypeError | Some row \<Rightarrow> Inr (row destination))"

section \<open>Frame-driven variant: distance, nearest stop, ETA and fare\<close>

text \<open>
  \<open>Math.atan2(y, x)\<close> on reals (signed zeros and \<open>NaN\<close> are not modelled).
\<close>

definition atan2 :: "real \<Rightarrow> real \<Rightarrow> real" where
  "atan2 y x =
     (if x > 0 then arctan (y / x)
      else if x < 0 then (if y \<ge> 0 then arctan (y / x) + pi else arctan (y / x) - pi)
      else if y > 0 then pi / 2
      else if y < 0 then - pi / 2
      else 0)"

text \<open>\<open>calculateDistance\<close>: the Haversine formula, in kilometres.\<close>

definition calculateDistance :: "real \<Rightarrow> real \<Rightarrow> real \<Rightarrow> real \<Rightarrow> real" where
  "calculateDistance lat1 lon1 lat2 lon2 =
     (let R = 6371;
          dLat = (lat2 - lat1) * pi / 180;
          dLon = (lon2 - lon1) * pi / 180;
          a = sin (dLat / 2) * sin (dLat / 2) +
              cos (lat1 * pi / 180) * cos (lat2 * pi / 180) *
              sin (dLon / 2) * sin (dLon / 2);
          c = 2 * atan2 (sqrt a) (sqrt (1 - a))
      in R * c)"

text \<open>
  \<open>findNearestStop(userPos)\<close> of the frame-driven variant.  It returns \<open>null\<close> without
  a position and on an empty table, and otherwise the object
  \<open>{ ...stop, distance: minDistance }\<close>, here the pair of the stop and its distance.
\<close>

definition findNearestStop2 :: "stop list \<Rightarrow> latlng option \<Rightarrow> (stop \<times> real) option" where
  "findNearestStop2 stopsData userPos =
     (case userPos of
        None \<Rightarrow> None
      | Some u \<Rightarrow>
          snd (fold (\<lambda>s (minDistance, nearest).
                       let distance = calculateDistance (lat u) (lng u) (lat s) (lng s)
                       in if below distance minDistance then (Some distance, Some (s, distance))
                          else (minDistance, nearest))
                 stopsData (None, None)))"

text \<open>
  The fields of a bus object of the frame-driven variant that \<open>calculateBusETA\<close> reads
  (\<open>bus.stops\<close> is called \<open>bus_stops\<close> here).  \<open>nextStop\<close> is the result of a
  \<open>find\<close> and may be \<open>undefined\<close>.
\<close>

record route_bus =
  currentStopIndex :: nat
  position :: latlng
  nextStop :: "stop option"
  speed :: real
  isAtStop :: bool
  stopArrivalTime :: real
  bus_stops :: "string list"

text \<open>\<open>Array.prototype.indexOf\<close>: the first index of the element, \<open>None\<close> for \<open>-1\<close>.\<close>

fun indexOf :: "'a list \<Rightarrow> 'a \<Rightarrow> nat option" where
  "indexOf [] x = None"
| "indexOf (y # ys) x =
     (if y = x then Some 0 else map_option Suc (indexOf ys x))"

text \<open>
  \<open>stopsData.find(stop => stop.name === bus.stops[i])\<close>; outside the list
  \<open>bus.stops[i]\<close> is \<open>undefined\<close> and no stop matches.
\<close>

definition stop_at :: "stop list \<Rightarrow> string list \<Rightarrow> nat \<Rightarrow> stop option" where
  "stop_at stopsData names i =
     (if i < length names then find (\<lambda>s. name s = names ! i) stopsData else None)"

text \<open>\<open>STOP_PAUSE_TIME\<close>, in seconds.\<close>

definition STOP_PAUSE_TIME :: real where
  "STOP_PAUSE_TIME = 120"

text \<open>
  The \<open>while (currentIndex !== targetStopIndex)\<close> loop of \<open>calculateBusETA\<close>, with the
  loop variables \<open>totalTime\<close> and \<open>currentIndex\<close>; \<open>None\<close> means that it never exits.
  (The quotient \<open>distance / bus.speed\<close> is the real one; a speed of zero is outside the
  model.)
\<close>

partial_function (option) calculateBusETA_loop ::
  "stop list \<Rightarrow> route_bus \<Rightarrow> nat \<Rightarrow> real \<Rightarrow> nat \<Rightarrow> real option" where
  "calculateBusETA_loop stopsData b targetStopIndex totalTime currentIndex =
     (if currentIndex \<noteq> targetStopIndex then
        let currentStop = stop_at stopsData (bus_stops b) currentIndex;
            nextStopIndex = (currentIndex + 1) mod length (bus_stops b);
            nextStop = stop_at stopsData (bus_stops b) nextStopIndex;
            totalTime =
              (case (currentStop, nextStop) of
                 (Some c, Some n) \<Rightarrow>
                   totalTime + STOP_PAUSE_TIME +
                   calculateDistance (lat c) (lng c) (lat n) (lng n) / speed b * 3600
               | _ \<Rightarrow> totalTime)
        in calculateBusETA_loop stopsData b targetStopIndex totalTime nextStopIndex
      else Some totalTime)"

text \<open>
  \<open>calculateBusETA(bus, targetStopName)\<close>; \<open>now\<close> is the value of \<open>Date.now()\<close>.
  A missing bus, an empty name and a name that is not on the bus's route each return 0.
\<close>

definition calculateBusETA ::
  "stop list \<Rightarrow> real \<Rightarrow> route_bus option \<Rightarrow> string \<Rightarrow> (error + int) option" where
  "calculateBusETA stopsData now bus targetStopName =
     (case bus of
        None \<Rightarrow> Some (Inr 0)
      | Some b \<Rightarrow>
          if targetStopName = [] then Some (Inr 0)
          else
            (case indexOf (bus_stops b) targetStopName of
               None \<Rightarrow> Some (Inr 0)
             | Some targetStopIndex \<Rightarrow>
                 let currentIndex = currentStopIndex b in
                 if isAtStop b then
                   let timeAtStop = (now - stopArrivalTime b) / 1000;
                       remainingPauseTime = max 0 (STOP_PAUSE_TIME - timeAtStop)
                   in map_option (\<lambda>totalTime. Inr (round (totalTime / 60)))
                        (calculateBusETA_loop stopsData b targetStopIndex
                           remainingPauseTime currentIndex)
                 else
                   (case stop_at stopsData (bus_stops b) currentIndex of
                      None \<Rightarrow>
                        map_option (\<lambda>totalTime. Inr (round (totalTime / 60)))
                          (calculateBusETA_loop stopsData b targetStopIndex 0
                             ((currentIndex + 1) mod length (bus_stops b)))
                    | Some currentStop \<Rightarrow>
                        (case nextStop b of
                           None \<Rightarrow> Some (Inl TypeError)
                         | Some ns \<Rightarrow>
                             let distance = calculateDistance (lat (position b))
                                              (lng (position b)) (lat ns) (lng ns)
                             in map_option (\<lambda>totalTime. Inr (round (totalTime / 60)))
                                  (calculateBusETA_loop stopsData b targetStopIndex
                                     (distance / speed b * 3600)
                                     ((currentIndex + 1) mod length (bus_stops b)))))))"

text \<open>
  \<open>calculateFare(fromStop, toStop)\<close>:
  \<open>faresData[fromStop]?.[toStop] || faresData[toStop]?.[fromStop] || 0\<close>.
  \<open>entry\<close> is the optional-chaining subscript, \<open>undefined\<close> (\<open>None\<close>) when the row or
  the entry is missing.  The operator \<open>||\<close> takes its right operand when the left one is
  falsy: \<open>undefined\<close> or the number 0.  An empty name is falsy, too.
\<close>

definition entry :: "fare_table \<Rightarrow> string \<Rightarrow> string \<Rightarrow> int option" where
  "entry faresData a b = (case faresData a of None \<Rightarrow> None | Some row \<Rightarrow> row b)"

fun truthy :: "int option \<Rightarrow> bool" where
  "truthy None = False"
| "truthy (Some v) = (v \<noteq> 0)"

definition calculateFare :: "fare_table \<Rightarrow> string \<Rightarrow> string \<Rightarrow> int" where
  "calculateFare faresData fromStop toStop =
     (if fromStop = [] \<or> toStop = [] then 0
      else if truthy (entry faresData fromStop toStop)
        then the (entry faresData fromStop toStop)
      else if truthy (entry faresData toStop fromStop)
        then the (entry faresData toStop fromStop)
      else 0)"

section \<open>Example data\<close>

text \<open>The three-stop loop of the specification's examples.\<close>

definition example_stops :: "stop list" where
  "example_stops =
     [\<lparr>lat = 0, lng = 0, name = ''A''\<rparr>,
      \<lparr>lat = 0, lng = 1, name = ''B''\<rparr>,
      \<lparr>lat = 1, lng = 1, name = ''C''\<rparr>]"

text \<open>Bus \<open>A\<close> as \<open>useState\<close> creates it: at the first stop, about to dwell.\<close>

definition initial_bus :: bus where
  "initial_bus =
     \<lparr>lat = 0, lng = 0, bus_id = ''A'', index = 0, nextIndex = 1, progress = 0,
      stopTimer = 0\<rparr>"

text \<open>The same bus 119 ticks later: 20 ticks of dwelling and 99 of moving.\<close>

definition arriving_bus :: bus where
  "arriving_bus =
     \<lparr>lat = 0, lng = 99 / 100, bus_id = ''A'', index = 0, nextIndex = 1,
      progress = 99 / 100, stopTimer = 20\<rparr>"






definition moving_bus :: bus where
  "moving_bus =
     \<lparr>lat = 0, lng = 1 / 20, bus_id = ''A'', index = 0, nextIndex = 1, progress = 1 / 2,
      stopTimer = 20\<rparr>"

text \<open>A user equally far from the three stops of the loop.\<close>

definition central_user :: latlng where
  "central_user = \<lparr>lat = 1 / 2, lng = 1 / 2\<rparr>"

text \<open>A bus of the frame-driven variant on the route \<open>A, B, C\<close>.\<close>

definition example_route_bus :: route_bus where
  "example_route_bus =
     \<lparr>currentStopIndex = 0, position = \<lparr>lat = 0, lng = 0\<rparr>,
      nextStop = Some \<lparr>lat = 0, lng = 1, name = ''B''\<rparr>, speed = 25, isAtStop = False,
      stopArrivalTime = 0, bus_stops = [''A'', ''B'', ''C'']\<rparr>"

text \<open>
  The fare table of the specification's example, and a table whose forward entry is 0.
\<close>

definition example_fares :: fare_table where
  "example_fares = [''A'' \<mapsto> [''B'' \<mapsto> 15]]"

definition zero_fares :: fare_table where
  "zero_fares = [''A'' \<mapsto> [''B'' \<mapsto> 0], ''B'' \<mapsto> [''A'' \<mapsto> 25]]"

section \<open>The simulator tick: the three cases\<close>

lemma tick_dwell:
  "stopTimer b < 20 \<Longrightarrow> tick stops b = Inr (b\<lparr>stopTimer := stopTimer b + 1\<rparr>)"
  by (simp add: tick_def)

lemma tick_move:
  assumes "20 \<le> stopTimer b" "progress b + 1 / 100 < 1"
    "index b < length stops" "nextIndex b < length stops"
  shows "tick stops b =
     Inr (b\<lparr>lat := lat (stops ! index b) +
                  (lat (stops ! nextIndex b) - lat (stops ! index b)) * (progress b + 1 / 100),
            lng := lng (stops ! index b) +
                  (lng (stops ! nextIndex b) - lng (stops ! index b)) * (progress b + 1 / 100),
            progress := progress b + 1 / 100\<rparr>)"
  using assms by (simp add: tick_def Let_def)

lemma wrapping_tick:
  assumes "20 \<le> stopTimer b" "1 \<le> progress b + 1 / 100"
    "index b < length stops" "nextIndex b < length stops"
  shows "tick stops b =
     Inr (b\<lparr>lat := lat (stops ! index b), lng := lng (stops ! index b),
            index := nextIndex b, nextIndex := (nextIndex b + 1) mod length stops,
            progress := 0, stopTimer := 0\<rparr>)"
  using assms by (simp add: tick_def Let_def)

lemma tick_in_table:
  assumes "index b < length stops" "nextIndex b < length stops"
  shows "\<exists>b'. tick stops b = Inr b' \<and> index b' < length stops \<and> nextIndex b' < length stops"
proof -
  have "0 < length stops" using assms(1) by (cases stops) simp_all
  then have "(nextIndex b + 1) mod length stops < length stops" by (rule mod_less_divisor)
  then show ?thesis using assms by (simp add: tick_def Let_def)
qed

lemma tick_bounds:
  assumes "tick stops b = Inr b'" "0 \<le> progress b" "progress b < 1" "stopTimer b \<le> 20"
  shows "0 \<le> progress b' \<and> progress b' < 1 \<and> stopTimer b' \<le> 20"
  using assms by (auto simp add: tick_def Let_def split: if_splits)

text \<open>
  Claim C7.  On a tick where the vehicle is still dwelling (\<open>stopTimer < 20\<close>), the tick
  adds exactly 1 to \<open>stopTimer\<close> and leaves the position, \<open>progress\<close>, \<open>index\<close>,
  \<open>nextIndex\<close> and the id as they were; it does not even read the stop table.
\<close>

theorem tick_dwelling_frame:
  assumes "stopTimer b < 20"
  shows "\<exists>b'. tick stops b = Inr b' \<and> stopTimer b' = stopTimer b + 1 \<and>
           lat b' = lat b \<and> lng b' = lng b \<and> progress b' = progress b \<and>
           index b' = index b \<and> nextIndex b' = nextIndex b \<and> bus_id b' = bus_id b \<and>
           b' = b\<lparr>stopTimer := stopTimer b + 1\<rparr>"
  using assms by (simp add: tick_def)

theorem tick_dwelling_frame_witness:
  "stopTimer initial_bus < 20 \<and>
   tick example_stops initial_bus = Inr (initial_bus\<lparr>stopTimer := 1\<rparr>)"
  using tick_dwelling_frame [of initial_bus example_stops]
  by (simp add: initial_bus_def)

text \<open>
  Claim C6.  On a tick where a vehicle that is not dwelling advances its progress to 1 or
  beyond, \<open>index\<close> becomes the old \<open>nextIndex\<close>, \<open>nextIndex\<close> becomes
  \<open>(nextIndex + 1) mod stops.length\<close>, and \<open>progress\<close> and \<open>stopTimer\<close> are reset
  to 0.  Both indices are inside the stop table, as they are in every state the
  simulator reaches; outside it the tick throws.
\<close>

theorem tick_wrap:
  assumes "20 \<le> stopTimer b" and "1 \<le> progress b + 1 / 100"
    and "index b < length stops" and "nextIndex b < length stops"
  shows "\<exists>b'. tick stops b = Inr b' \<and> index b' = nextIndex b \<and>
           nextIndex b' = (nextIndex b + 1) mod length stops \<and>
           progress b' = 0 \<and> stopTimer b' = 0"
  using assms by (simp add: tick_def Let_def)

theorem tick_wrap_witness:
  "20 \<le> stopTimer arriving_bus \<and> 1 \<le> progress arriving_bus + 1 / 100 \<and>
   index arriving_bus < length example_stops \<and>
   nextIndex arriving_bus < length example_stops \<and>
   (\<exists>b'. tick example_stops arriving_bus = Inr b' \<and> index b' = 1 \<and> nextIndex b' = 2 \<and>
      progress b' = 0 \<and> stopTimer b' = 0)"
  using tick_wrap [of arriving_bus example_stops]
  by (simp add: arriving_bus_def example_stops_def numeral_2_eq_2)

section \<open>Runs of ticks\<close>

lemma ticks_bounds:
  "ticks stops n b = Inr b' \<Longrightarrow> 0 \<le> progress b \<Longrightarrow> progress b < 1 \<Longrightarrow> stopTimer b \<le> 20
   \<Longrightarrow> 0 \<le> progress b' \<and> progress b' < 1 \<and> stopTimer b' \<le> 20"
proof (induction n arbitrary: b)
  case 0
  then show ?case by simp
next
  case (Suc n)
  from Suc.prems(1) obtain c where c: "tick stops b = Inr c" and r: "ticks stops n c = Inr b'"
    by (auto split: sum.splits)
  from tick_bounds[OF c Suc.prems(2-4)] Suc.IH[OF r] show ?case by simp
qed

lemma ticks_in_table:
  "index b < length stops \<Longrightarrow> nextIndex b < length stops \<Longrightarrow>
   \<exists>b'. ticks stops n b = Inr b' \<and> index b' < length stops \<and> nextIndex b' < length stops"
proof (induction n arbitrary: b)
  case 0
  then show ?case by simp
next
  case (Suc n)
  from tick_in_table[OF Suc.prems] obtain c where c: "tick stops b = Inr c"
    "index c < length stops" "nextIndex c < length stops" by blast
  from Suc.IH[OF c(2,3)] c(1) show ?case by simp
qed

lemma ticks_dwell:
  "0 \<le> stopTimer b \<Longrightarrow> stopTimer b + int k \<le> 20 \<Longrightarrow>
   ticks stops k b = Inr (b\<lparr>stopTimer := stopTimer b + int k\<rparr>)"
proof (induction k arbitrary: b)
  case 0
  then show ?case by simp
next
  case (Suc k)
  have t: "tick stops b = Inr (b\<lparr>stopTimer := stopTimer b + 1\<rparr>)"
    using Suc.prems by (intro tick_dwell) simp
  have "ticks stops k (b\<lparr>stopTimer := stopTimer b + 1\<rparr>)
        = Inr (b\<lparr>stopTimer := stopTimer b + 1\<rparr>\<lparr>stopTimer := stopTimer (b\<lparr>stopTimer := stopTimer b + 1\<rparr>) + int k\<rparr>)"
    using Suc.prems by (intro Suc.IH) simp_all
  with t show ?case by (simp add: add.assoc add.commute)
qed

lemma ticks_add:
  "ticks stops (m + n) b =
     (case ticks stops m b of Inl e \<Rightarrow> Inl e | Inr c \<Rightarrow> ticks stops n c)"
  by (induction m arbitrary: b) (auto split: sum.splits)

lemma ticks_move:
  assumes "20 \<le> stopTimer b" and "progress b + real (Suc k) / 100 < 1"
    and "index b < length stops" and "nextIndex b < length stops"
  shows "ticks stops (Suc k) b =
     Inr (b\<lparr>lat := lat (stops ! index b) +
                  (lat (stops ! nextIndex b) - lat (stops ! index b)) *
                  (progress b + real (Suc k) / 100),
            lng := lng (stops ! index b) +
                  (lng (stops ! nextIndex b) - lng (stops ! index b)) *
                  (progress b + real (Suc k) / 100),
            progress := progress b + real (Suc k) / 100\<rparr>)"
  using assms
proof (induction k arbitrary: b)
  case 0
  then show ?case using tick_move[of b stops] by simp
next
  case (Suc k)
  let ?c = "b\<lparr>lat := lat (stops ! index b) + (lat (stops ! nextIndex b) - lat (stops ! index b)) * (progress b + 1 / 100),
            lng := lng (stops ! index b) + (lng (stops ! nextIndex b) - lng (stops ! index b)) * (progress b + 1 / 100),
            progress := progress b + 1 / 100\<rparr>"
  have "(1::real) / 100 \<le> real (Suc (Suc k)) / 100" by simp
  then have small: "progress b + 1 / 100 < 1" using Suc.prems(2) by linarith
  have t: "tick stops b = Inr ?c"
    using Suc.prems(1) small Suc.prems(3,4) by (rule tick_move)
  have "ticks stops (Suc k) ?c =
     Inr (?c\<lparr>lat := lat (stops ! index ?c) +
                  (lat (stops ! nextIndex ?c) - lat (stops ! index ?c)) *
                  (progress ?c + real (Suc k) / 100),
            lng := lng (stops ! index ?c) +
                  (lng (stops ! nextIndex ?c) - lng (stops ! index ?c)) *
                  (progress ?c + real (Suc k) / 100),
            progress := progress ?c + real (Suc k) / 100\<rparr>)"
    using Suc.prems by (intro Suc.IH) (simp_all add: field_simps)
  then show ?case using t by (simp add: field_simps)
qed

text \<open>
  Claim C1.  For a route of at least two stops and a vehicle that starts with
  \<open>progress = 0\<close> and \<open>stopTimer = 0\<close>, every state reached after \<open>n\<close> ticks has its
  progress in \<open>[0, 1)\<close> and its \<open>stopTimer\<close> at most 20.  When the two indices start
  inside the stop table, the \<open>n\<close> ticks do run to the end without an exception.
\<close>

theorem progress_and_dwell_bounded:
  assumes "2 \<le> length stops" and "progress b = 0" and "stopTimer b = 0"
  shows "(\<forall>b'. ticks stops n b = Inr b' \<longrightarrow>
            0 \<le> progress b' \<and> progress b' < 1 \<and> stopTimer b' \<le> 20) \<and>
         (index b < length stops \<and> nextIndex b < length stops \<longrightarrow>
            (\<exists>b'. ticks stops n b = Inr b'))"
proof -
  have "0 \<le> progress b' \<and> progress b' < 1 \<and> stopTimer b' \<le> 20"
    if "ticks stops n b = Inr b'" for b'
    using that assms by (intro ticks_bounds[of stops n b b']) simp_all
  moreover have "\<exists>b'. ticks stops n b = Inr b'"
    if "index b < length stops \<and> nextIndex b < length stops"
    using that ticks_in_table[of b stops n] by blast
  ultimately show ?thesis by blast
qed

theorem progress_and_dwell_bounded_witness:
  "2 \<le> length example_stops \<and> progress initial_bus = 0 \<and> stopTimer initial_bus = 0 \<and>
   index initial_bus < length example_stops \<and> nextIndex initial_bus < length example_stops \<and>
   (\<exists>b'. ticks example_stops 50 initial_bus = Inr b' \<and>
      0 \<le> progress b' \<and> progress b' < 1 \<and> stopTimer b' \<le> 20)"
  using progress_and_dwell_bounded [of example_stops initial_bus 50]
  by (auto simp add: initial_bus_def example_stops_def)

section \<open>The position stored by the tick\<close>

text \<open>
  Claim C9.  In the interval-timer variant, on the tick in which the progress wraps, the
  new position is the interpolation at progress 0 over the segment the vehicle has just
  finished: the coordinates of the stop at the old \<open>index\<close>, which the vehicle left,
  while \<open>index\<close> already names the stop it has arrived at.  The position keeps this
  value during the 20 ticks of dwelling that follow.
\<close>

theorem wrap_position_is_departed_stop:
  assumes "20 \<le> stopTimer b" and "1 \<le> progress b + 1 / 100"
    and "index b < length stops" and "nextIndex b < length stops"
  shows "\<exists>b'. tick stops b = Inr b' \<and> index b' = nextIndex b \<and>
           lat b' = lat (stops ! index b) \<and> lng b' = lng (stops ! index b) \<and>
           (\<forall>k\<le>20. \<exists>b''. ticks stops k b' = Inr b'' \<and> index b'' = nextIndex b \<and>
                      lat b'' = lat (stops ! index b) \<and> lng b'' = lng (stops ! index b))"
proof -
  let ?b' = "b\<lparr>lat := lat (stops ! index b), lng := lng (stops ! index b),
            index := nextIndex b, nextIndex := (nextIndex b + 1) mod length stops,
            progress := 0, stopTimer := 0\<rparr>"
  have t: "tick stops b = Inr ?b'" using assms by (rule wrapping_tick)
  have d: "ticks stops k ?b' = Inr (?b'\<lparr>stopTimer := stopTimer ?b' + int k\<rparr>)" if "k \<le> 20" for k
    using that by (intro ticks_dwell) simp_all
  show ?thesis using t d by simp
qed

theorem wrap_position_is_departed_stop_witness:
  "20 \<le> stopTimer arriving_bus \<and> 1 \<le> progress arriving_bus + 1 / 100 \<and>
   index arriving_bus < length example_stops \<and>
   nextIndex arriving_bus < length example_stops \<and>
   (\<exists>b'. tick example_stops arriving_bus = Inr b' \<and> index b' = nextIndex arriving_bus \<and>
      lat b' = lat (example_stops ! index arriving_bus) \<and>
      lng b' = lng (example_stops ! index arriving_bus) \<and>
      (\<exists>b''. ticks example_stops 20 b' = Inr b'' \<and> index b'' = nextIndex arriving_bus \<and>
              lat b'' = lat (example_stops ! index arriving_bus) \<and>
              lng b'' = lng (example_stops ! index arriving_bus)))"
proof -
  have h: "20 \<le> stopTimer arriving_bus" "1 \<le> progress arriving_bus + 1 / 100"
    "index arriving_bus < length example_stops" "nextIndex arriving_bus < length example_stops"
    by (simp_all add: arriving_bus_def example_stops_def)
  have "(20::nat) \<le> 20" by simp
  with wrap_position_is_departed_stop [OF h] h show ?thesis by blast
qed

text \<open>
  On a moving tick that does not wrap, the stored position is the interpolation between
  the stops at the new indices, at the new progress.
\<close>

lemma tick_move_interpolates:
  assumes "20 \<le> stopTimer b" and "progress b + 1 / 100 < 1" and "tick stops b = Inr b'"
  shows "lat b' = lat (stops ! index b') +
                  (lat (stops ! nextIndex b') - lat (stops ! index b')) * progress b' \<and>
         lng b' = lng (stops ! index b') +
                  (lng (stops ! nextIndex b') - lng (stops ! index b')) * progress b'"
  using assms by (auto simp add: tick_def Let_def split: if_splits)

text \<open>
  Claim C5.  After every tick the position should be the interpolation between the stops
  at the new \<open>index\<close> and \<open>nextIndex\<close> at the new progress, so that a vehicle with
  progress 0 stands at its current stop.  The tick misses this when it wraps: bus \<open>A\<close>
  of the application, 120 ticks after the start, has \<open>index = 1\<close> and progress 0, and its
  position is the first stop \<open>(0, 0)\<close>, not the stop \<open>(0, 1)\<close> at index 1.
\<close>

theorem position_after_wrap_is_stale:
  "ticks example_stops 120 initial_bus =
     Inr \<lparr>lat = 0, lng = 0, bus_id = ''A'', index = 1, nextIndex = 2, progress = 0,
          stopTimer = 0\<rparr> \<and>
   lat (example_stops ! 1) = 0 \<and> lng (example_stops ! 1) = 1"
proof -
  have d: "ticks example_stops 20 initial_bus = Inr (initial_bus\<lparr>stopTimer := 20\<rparr>)"
    using ticks_dwell[of initial_bus 20 example_stops] by (simp add: initial_bus_def)
  have m: "ticks example_stops 99 (initial_bus\<lparr>stopTimer := 20\<rparr>) = Inr arriving_bus"
    using ticks_move[of "initial_bus\<lparr>stopTimer := 20\<rparr>" 98 example_stops]
    by (simp add: initial_bus_def arriving_bus_def example_stops_def)
  have w: "tick example_stops arriving_bus =
     Inr \<lparr>lat = 0, lng = 0, bus_id = ''A'', index = 1, nextIndex = 2, progress = 0,
          stopTimer = 0\<rparr>"
    by (simp add: tick_def arriving_bus_def example_stops_def Let_def numeral_2_eq_2)
  have "ticks example_stops (20 + (99 + 1)) initial_bus =
     Inr \<lparr>lat = 0, lng = 0, bus_id = ''A'', index = 1, nextIndex = 2, progress = 0,
          stopTimer = 0\<rparr>"
    unfolding ticks_add using d m w by simp
  then show ?thesis by (simp add: example_stops_def)
qed

section \<open>Nearest stop\<close>

lemma nearest_fold:
  assumes "xs \<noteq> []"
  shows "\<exists>i<length xs.
           fold (\<lambda>s (m, r). if below (f s) m then (Some (f s), g s) else (m, r)) xs (None, r0)
             = (Some (f (xs ! i)), g (xs ! i)) \<and>
           (\<forall>j<length xs. f (xs ! i) \<le> f (xs ! j)) \<and>
           (\<forall>j<i. f (xs ! i) < f (xs ! j))"
  using assms
proof (induction xs rule: rev_nonempty_induct)
  case (single x)
  show ?case by simp
next
  case (snoc x xs)
  let ?step = "\<lambda>s (m, r). if below (f s) m then (Some (f s), g s) else (m, r)"
  from snoc.IH obtain i where i: "i < length xs"
    and st: "fold ?step xs (None, r0) = (Some (f (xs ! i)), g (xs ! i))"
    and le: "\<forall>j<length xs. f (xs ! i) \<le> f (xs ! j)"
    and lt: "\<forall>j<i. f (xs ! i) < f (xs ! j)" by blast
  show ?case
  proof (cases "f x < f (xs ! i)")
    case True
    have "fold ?step (xs @ [x]) (None, r0) = (Some (f x), g x)"
      using st True by simp
    moreover have "\<forall>j<length xs. f x < f (xs ! j)" using le True by fastforce
    ultimately show ?thesis
      by (intro exI[of _ "length xs"]) (auto simp add: nth_append less_Suc_eq)
  next
    case False
    have "fold ?step (xs @ [x]) (None, r0) = (Some (f (xs ! i)), g (xs ! i))"
      using st False by simp
    moreover have "f (xs ! i) \<le> f x" using False by simp
    ultimately show ?thesis using i le lt
      by (intro exI[of _ i]) (auto simp add: nth_append less_Suc_eq)
  qed
qed

lemma findNearestStop_fold:
  "findNearestStop (s0 # rest) (Some u) =
     Inr (name (snd (fold (\<lambda>s (m, r). if below (planar_distance u s) m
                                       then (Some (planar_distance u s), s) else (m, r))
                       (s0 # rest) (None, s0))))"
  unfolding findNearestStop_def Let_def by simp

lemma findNearestStop2_fold:
  "findNearestStop2 stopsData (Some u) =
     snd (fold (\<lambda>s (m, r). if below (calculateDistance (lat u) (lng u) (lat s) (lng s)) m
                 then (Some (calculateDistance (lat u) (lng u) (lat s) (lng s)),
                       Some (s, calculateDistance (lat u) (lng u) (lat s) (lng s)))
                 else (m, r))
            stopsData (None, None))"
  unfolding findNearestStop2_def Let_def by simp

text \<open>
  Claim C8.  For a stop table that is not empty and any user coordinates, both variants
  of \<open>findNearestStop\<close> return the stop at some index \<open>i\<close> whose distance to the user
  is minimal in the table and strictly smaller than the distance of every earlier stop:
  the first minimum in table order.  (The interval-timer variant returns the stop's name
  and measures the planar distance; the frame-driven one returns the stop with its
  Haversine distance.)
\<close>

theorem findNearestStop_first_minimum:
  assumes "stops \<noteq> []"
  shows "(\<exists>i<length stops.
            findNearestStop stops (Some u) = Inr (name (stops ! i)) \<and>
            (\<forall>j<length stops. planar_distance u (stops ! i) \<le> planar_distance u (stops ! j)) \<and>
            (\<forall>j<i. planar_distance u (stops ! i) < planar_distance u (stops ! j))) \<and>
         (\<exists>i<length stops.
            findNearestStop2 stops (Some u) =
              Some (stops ! i,
                    calculateDistance (lat u) (lng u) (lat (stops ! i)) (lng (stops ! i))) \<and>
            (\<forall>j<length stops.
               calculateDistance (lat u) (lng u) (lat (stops ! i)) (lng (stops ! i))
               \<le> calculateDistance (lat u) (lng u) (lat (stops ! j)) (lng (stops ! j))) \<and>
            (\<forall>j<i.
               calculateDistance (lat u) (lng u) (lat (stops ! i)) (lng (stops ! i))
               < calculateDistance (lat u) (lng u) (lat (stops ! j)) (lng (stops ! j))))"
proof (rule conjI)
  obtain s0 rest where sr: "stops = s0 # rest" using assms by (cases stops) auto
  from nearest_fold[OF assms, of "\<lambda>s. planar_distance u s" "\<lambda>s. s" s0]
  obtain i where i: "i < length stops"
    and st: "fold (\<lambda>s (m, r). if below (planar_distance u s) m
                                then (Some (planar_distance u s), s) else (m, r))
               stops (None, s0) = (Some (planar_distance u (stops ! i)), stops ! i)"
    and le: "\<forall>j<length stops. planar_distance u (stops ! i) \<le> planar_distance u (stops ! j)"
    and lt: "\<forall>j<i. planar_distance u (stops ! i) < planar_distance u (stops ! j)"
    by blast
  have "findNearestStop stops (Some u) = Inr (name (stops ! i))"
    using st unfolding sr findNearestStop_fold by simp
  with i le lt show "\<exists>i<length stops.
            findNearestStop stops (Some u) = Inr (name (stops ! i)) \<and>
            (\<forall>j<length stops. planar_distance u (stops ! i) \<le> planar_distance u (stops ! j)) \<and>
            (\<forall>j<i. planar_distance u (stops ! i) < planar_distance u (stops ! j))"
    by blast
next
  let ?d = "\<lambda>s. calculateDistance (lat u) (lng u) (lat s) (lng s)"
  from nearest_fold[OF assms, of ?d "\<lambda>s. Some (s, ?d s)" None]
  obtain i where i: "i < length stops"
    and st: "fold (\<lambda>s (m, r). if below (?d s) m then (Some (?d s), Some (s, ?d s)) else (m, r))
               stops (None, None) = (Some (?d (stops ! i)), Some (stops ! i, ?d (stops ! i)))"
    and le: "\<forall>j<length stops. ?d (stops ! i) \<le> ?d (stops ! j)"
    and lt: "\<forall>j<i. ?d (stops ! i) < ?d (stops ! j)"
    by blast
  have "findNearestStop2 stops (Some u) = Some (stops ! i, ?d (stops ! i))"
    using st unfolding findNearestStop2_fold by simp
  with i le lt show "\<exists>i<length stops.
            findNearestStop2 stops (Some u) = Some (stops ! i, ?d (stops ! i)) \<and>
            (\<forall>j<length stops. ?d (stops ! i) \<le> ?d (stops ! j)) \<and>
            (\<forall>j<i. ?d (stops ! i) < ?d (stops ! j))"
    by blast
qed

theorem findNearestStop_first_minimum_witness:
  "example_stops \<noteq> [] \<and> findNearestStop example_stops (Some central_user) = Inr ''A''"
  using findNearestStop_first_minimum [of example_stops central_user]
  by (simp add: example_stops_def central_user_def findNearestStop_def planar_distance_def)

section \<open>The ETA walk\<close>


lemma calculateETA_loop_steps:
  assumes "idx < length stops" and "nextIdx < length stops"
    and "name (stops ! ((nextIdx + k) mod length stops)) = target"
    and "\<forall>j<k. name (stops ! ((nextIdx + j) mod length stops)) \<noteq> target"
  shows "\<exists>d'. calculateETA_loop stops target d idx nextIdx p = Some (Inr (d', p + 20 * k))"
  using assms
proof (induction k arbitrary: d idx nextIdx p)
  case 0
  then show ?case by (simp add: calculateETA_loop.simps)
next
  case (Suc k)
  let ?n = "length stops"
  let ?next = "(nextIdx + 1) mod ?n"
  have pos: "0 < ?n" using Suc.prems(2) by (cases stops) simp_all
  have here: "name (stops ! nextIdx) \<noteq> target"
    using Suc.prems(4)[rule_format, of 0] Suc.prems(2) by simp
  have shift: "(?next + j) mod ?n = (nextIdx + Suc j) mod ?n" for j
    by (simp add: mod_add_left_eq)
  have "\<exists>d'. calculateETA_loop stops target
                (d + planar_distance (stops ! idx) (stops ! nextIdx)) nextIdx ?next (p + 20)
              = Some (Inr (d', (p + 20) + 20 * k))"
  proof (rule Suc.IH)
    show "nextIdx < ?n" by (rule Suc.prems(2))
    show "?next < ?n" using pos by (rule mod_less_divisor)
    show "name (stops ! ((?next + k) mod ?n)) = target"
      using Suc.prems(3) by (simp only: shift)
    show "\<forall>j<k. name (stops ! ((?next + j) mod ?n)) \<noteq> target"
      using Suc.prems(4) by (simp only: shift) auto
  qed
  then show ?case
    using here Suc.prems(1,2)
    by (subst calculateETA_loop.simps) (simp add: algebra_simps)
qed

lemma first_hit:
  assumes "nextIdx < length stops" and "t < length stops" and "name (stops ! t) = target"
  shows "\<exists>k<length stops. name (stops ! ((nextIdx + k) mod length stops)) = target \<and>
           (\<forall>j<k. name (stops ! ((nextIdx + j) mod length stops)) \<noteq> target)"
proof -
  let ?n = "length stops"
  let ?P = "\<lambda>k. name (stops ! ((nextIdx + k) mod ?n)) = target"
  define k0 where "k0 = (if nextIdx \<le> t then t - nextIdx else t + ?n - nextIdx)"
  have k0: "k0 < ?n" "(nextIdx + k0) mod ?n = t"
    using assms(1,2) by (auto simp add: k0_def)
  then have P0: "?P k0" using assms(3) by simp
  define k where "k = (LEAST k. ?P k)"
  have "?P k" unfolding k_def using P0 by (rule LeastI)
  moreover have "k \<le> k0" unfolding k_def using P0 by (rule Least_le)
  moreover have "\<not> ?P j" if "j < k" for j
    using that unfolding k_def by (rule not_less_Least)
  ultimately show ?thesis using k0(1) by (intro exI[of _ k]) auto
qed

lemma calculateETA_loop_present:
  assumes "idx < length stops" and "nextIdx < length stops"
    and "\<exists>s\<in>set stops. name s = target"
  shows "\<exists>d' k. calculateETA_loop stops target d idx nextIdx p = Some (Inr (d', p + 20 * k)) \<and>
           k < length stops"
proof -
  from assms(3) obtain t where t: "t < length stops" "name (stops ! t) = target"
    by (auto simp add: in_set_conv_nth)
  from first_hit[OF assms(2) t] obtain k where k: "k < length stops"
    "name (stops ! ((nextIdx + k) mod length stops)) = target"
    "\<forall>j<k. name (stops ! ((nextIdx + j) mod length stops)) \<noteq> target" by blast
  from calculateETA_loop_steps[OF assms(1,2) k(2,3), of d p] k(1)
  show ?thesis by auto
qed

lemma calculateETA_loop_returns:
  assumes "\<exists>s\<in>set stops. name s = target"
  shows "\<exists>r. calculateETA_loop stops target d idx nextIdx p = Some r"
proof (cases "idx < length stops \<and> nextIdx < length stops")
  case True
  with calculateETA_loop_present[of idx stops nextIdx target d p] assms
  show ?thesis by blast
next
  case False
  then show ?thesis by (subst calculateETA_loop.simps) auto
qed

lemma calculateETA_returns:
  assumes "\<exists>s\<in>set stops. name s = name target"
  shows "\<exists>r. calculateETA stops b (Some target) = Some r"
proof -
  from calculateETA_loop_returns[OF assms, of 0 "index b" "nextIndex b" 0]
  obtain r where "calculateETA_loop stops (name target) 0 (index b) (nextIndex b) 0 = Some r"
    by blast
  then show ?thesis
    by (cases r) (auto simp add: calculateETA_def Let_def)
qed

lemma indexOf_None: "indexOf xs x = None \<longleftrightarrow> x \<notin> set xs"
  by (induction xs) auto

lemma indexOf_Some: "indexOf xs x = Some i \<Longrightarrow> i < length xs \<and> xs ! i = x"
  by (induction xs arbitrary: i) (auto split: if_splits)

lemma calculateBusETA_loop_in_range:
  assumes "ci < length (bus_stops b)" and "(ci + k) mod length (bus_stops b) = t"
  shows "\<exists>r. calculateBusETA_loop stopsData b t tot ci = Some r"
  using assms
proof (induction k arbitrary: ci tot)
  case 0
  then have "ci = t" by simp
  then show ?case by (simp add: calculateBusETA_loop.simps)
next
  case (Suc k)
  let ?n = "length (bus_stops b)"
  show ?case
  proof (cases "ci = t")
    case True
    then show ?thesis by (simp add: calculateBusETA_loop.simps)
  next
    case False
    have pos: "0 < ?n" by (rule le_less_trans[OF le0 Suc.prems(1)])
    have nx: "(ci + 1) mod ?n < ?n" using pos by (rule mod_less_divisor)
    have "((ci + 1) mod ?n + k) mod ?n = t"
      using Suc.prems(2) by (simp add: mod_add_left_eq)
    from Suc.IH[OF nx this] False show ?thesis
      by (subst calculateBusETA_loop.simps) (simp add: Let_def)
  qed
qed

lemma calculateBusETA_loop_terminates:
  assumes "t < length (bus_stops b)"
  shows "\<exists>r. calculateBusETA_loop stopsData b t tot ci = Some r"
proof -
  let ?n = "length (bus_stops b)"
  have inr: "\<exists>r. calculateBusETA_loop stopsData b t tot' c = Some r" if "c < ?n" for c tot'
  proof -
    have "(c + (t + ?n - c)) mod ?n = t" using that assms by simp
    from calculateBusETA_loop_in_range[OF that this] show ?thesis .
  qed
  show ?thesis
  proof (cases "ci = t")
    case True
    then show ?thesis by (simp add: calculateBusETA_loop.simps)
  next
    case False
    have "0 < ?n" by (rule le_less_trans[OF le0 assms])
    then have "(ci + 1) mod ?n < ?n" by (rule mod_less_divisor)
    from inr[OF this] False show ?thesis
      by (subst calculateBusETA_loop.simps) (simp add: Let_def)
  qed
qed

lemma calculateBusETA_present:
  assumes "targetStopName \<in> set (bus_stops rb)"
  shows "\<exists>r. calculateBusETA stopsData now (Some rb) targetStopName = Some r"
proof (cases "targetStopName = []")
  case True
  then show ?thesis by (simp add: calculateBusETA_def)
next
  case False
  from assms obtain t where t: "indexOf (bus_stops rb) targetStopName = Some t"
    using indexOf_None[of "bus_stops rb" targetStopName] by (cases "indexOf (bus_stops rb) targetStopName") auto
  then have "t < length (bus_stops rb)" using indexOf_Some by fastforce
  then have halts: "\<exists>r. calculateBusETA_loop stopsData rb t tot ci = Some r" for tot ci
    by (rule calculateBusETA_loop_terminates)
  show ?thesis
  proof (cases "isAtStop rb")
    case True
    with halts[of "max 0 (STOP_PAUSE_TIME - (now - stopArrivalTime rb) / 1000)" "currentStopIndex rb"]
    show ?thesis using False t by (auto simp add: calculateBusETA_def Let_def)
  next
    case moving: False
    show ?thesis
    proof (cases "stop_at stopsData (bus_stops rb) (currentStopIndex rb)")
      case None
      with halts[of 0 "(currentStopIndex rb + 1) mod length (bus_stops rb)"]
      show ?thesis using False t moving by (auto simp add: calculateBusETA_def Let_def)
    next
      case (Some cs)
      show ?thesis
      proof (cases "nextStop rb")
        case None
        then show ?thesis using False t moving Some by (simp add: calculateBusETA_def Let_def)
      next
        case ns: (Some ns)
        with halts[of "calculateDistance (lat (position rb)) (lng (position rb)) (lat ns) (lng ns) / speed rb * 3600"
            "(currentStopIndex rb + 1) mod length (bus_stops rb)"]
        show ?thesis using False t moving Some by (auto simp add: calculateBusETA_def Let_def)
      qed
    qed
  qed
qed

lemma calculateBusETA_absent:
  assumes "targetStopName \<notin> set (bus_stops rb)"
  shows "calculateBusETA stopsData now (Some rb) targetStopName = Some (Inr 0)"
  using assms indexOf_None[of "bus_stops rb" targetStopName]
  by (simp add: calculateBusETA_def)

text \<open>
  Without a stop of the target's name and with both indices inside the table, the loop
  of \<open>calculateETA\<close> never exits: whatever it returned would have to come from a pass
  whose test fails.
\<close>

lemma calculateETA_loop_absent:
  assumes "calculateETA_loop stops target d idx nextIdx p = Some y"
  shows "idx < length stops \<and> nextIdx < length stops \<and> (\<forall>s\<in>set stops. name s \<noteq> target)
         \<longrightarrow> False"
proof (rule calculateETA_loop.raw_induct
    [where P = "\<lambda>stops target d idx nextIdx p y.
       idx < length stops \<and> nextIdx < length stops \<and> (\<forall>s\<in>set stops. name s \<noteq> target)
       \<longrightarrow> False", OF _ assms])
  fix f stops target d idx nextIdx p y
  assume IH: "\<And>stops target d idx nextIdx p y. f stops target d idx nextIdx p = Some y \<Longrightarrow>
       idx < length stops \<and> nextIdx < length stops \<and> (\<forall>s\<in>set stops. name s \<noteq> target)
       \<longrightarrow> False"
    and step: "(if nextIdx < length stops
      then if name (stops ! nextIdx) \<noteq> target
           then if idx < length stops
                then f stops target
                      (d + planar_distance (stops ! idx) (stops ! nextIdx))
                      nextIdx ((nextIdx + 1) mod length stops)
                      (p + 20)
                else Some (Inl TypeError)
           else Some (Inr (d, p))
      else Some (Inl TypeError)) = Some y"
  show "idx < length stops \<and> nextIdx < length stops \<and> (\<forall>s\<in>set stops. name s \<noteq> target)
       \<longrightarrow> False"
  proof
    assume a: "idx < length stops \<and> nextIdx < length stops \<and> (\<forall>s\<in>set stops. name s \<noteq> target)"
    then have ne: "name (stops ! nextIdx) \<noteq> target" by simp
    have "0 < length stops" using a by (cases stops) simp_all
    then have nx: "(nextIdx + 1) mod length stops < length stops" by (rule mod_less_divisor)
    from step a ne have "f stops target (d + planar_distance (stops ! idx) (stops ! nextIdx))
                      nextIdx ((nextIdx + 1) mod length stops) (p + 20) = Some y" by simp
    from IH[OF this] a nx show False by simp
  qed
qed

lemma calculateETA_absent_target_diverges:
  assumes "index b < length stops" and "nextIndex b < length stops"
    and "\<forall>s\<in>set stops. name s \<noteq> name us"
  shows "calculateETA stops b (Some us) = None"
proof -
  have "calculateETA_loop stops (name us) 0 (index b) (nextIndex b) 0 = None"
  proof (cases "calculateETA_loop stops (name us) 0 (index b) (nextIndex b) 0")
    case None then show ?thesis .
  next
    case (Some y)
    from calculateETA_loop_absent[OF this] assms show ?thesis by blast
  qed
  then show ?thesis by (simp add: calculateETA_def)
qed

text \<open>
  Claim C2, as stated: when the target stop name is not on the route, the estimator
  fails with an \<open>InvalidTarget\<close> condition instead of looping forever or producing a
  number.  The code has no such condition: \<open>calculateBusETA\<close> returns the number 0 for
  a name that is not on the bus's route, and \<open>calculateETA\<close> does not return for a
  name that is not in the table.
\<close>

theorem absent_target_returns_zero_counterexample:
  "''Z'' \<notin> set (bus_stops example_route_bus) \<and>
   calculateBusETA example_stops 0 (Some example_route_bus) ''Z'' = Some (Inr 0) \<and>
   calculateETA example_stops initial_bus (Some \<lparr>lat = 0, lng = 0, name = ''Z''\<rparr>) = None"
proof -
  have "calculateETA example_stops initial_bus (Some \<lparr>lat = 0, lng = 0, name = ''Z''\<rparr>) = None"
    by (rule calculateETA_absent_target_diverges)
      (simp_all add: example_stops_def initial_bus_def)
  then show ?thesis by (simp add: example_route_bus_def calculateBusETA_def)
qed

text \<open>
  Claim C2, amended.  When the target stop name is in the table, \<open>calculateETA\<close>
  returns for every vehicle state; when the vehicle's indices are inside the table as
  well, its forward walk exits after \<open>k\<close> passes with \<open>k\<close> below the number of stops
  (each pass adds 20 to \<open>stopPauseTicks\<close>, which starts at 0) and the result is a
  number.  \<open>calculateBusETA\<close> returns for every name on the bus's route, and returns 0
  for a name that is not on it.
\<close>

theorem eta_walk_terminates:
  "((\<exists>s\<in>set stops. name s = name target) \<longrightarrow>
      (\<exists>r. calculateETA stops b (Some target) = Some r)) \<and>
   (index b < length stops \<and> nextIndex b < length stops \<and>
      (\<exists>s\<in>set stops. name s = name target) \<longrightarrow>
      (\<exists>d k. calculateETA_loop stops (name target) 0 (index b) (nextIndex b) 0
                = Some (Inr (d, 20 * k)) \<and> k < length stops) \<and>
      (\<exists>eta. calculateETA stops b (Some target) = Some (Inr eta))) \<and>
   (targetStopName \<in> set (bus_stops rb) \<longrightarrow>
      (\<exists>r. calculateBusETA stopsData now (Some rb) targetStopName = Some r)) \<and>
   (targetStopName \<notin> set (bus_stops rb) \<longrightarrow>
      calculateBusETA stopsData now (Some rb) targetStopName = Some (Inr 0))"
proof -
  have zero: "\<exists>r. calculateETA stops b (Some target) = Some r"
    if "\<exists>s\<in>set stops. name s = name target"
    using that by (rule calculateETA_returns)
  have one: "(\<exists>d k. calculateETA_loop stops (name target) 0 (index b) (nextIndex b) 0
                = Some (Inr (d, 20 * k)) \<and> k < length stops) \<and>
      (\<exists>eta. calculateETA stops b (Some target) = Some (Inr eta))"
    if h: "index b < length stops \<and> nextIndex b < length stops \<and>
      (\<exists>s\<in>set stops. name s = name target)"
  proof -
    from h have a: "index b < length stops" "nextIndex b < length stops"
      "\<exists>s\<in>set stops. name s = name target" by simp_all
    from calculateETA_loop_present[OF a, of 0 0] obtain d k where
      loop: "calculateETA_loop stops (name target) 0 (index b) (nextIndex b) 0 = Some (Inr (d, 20 * k))"
      and k: "k < length stops" by auto
    have "\<exists>eta. calculateETA stops b (Some target) = Some (Inr eta)"
      using loop a(1,2) by (simp add: calculateETA_def Let_def)
    with loop k show ?thesis by blast
  qed
  have two: "\<exists>r. calculateBusETA stopsData now (Some rb) targetStopName = Some r"
    if "targetStopName \<in> set (bus_stops rb)"
    using that by (rule calculateBusETA_present)
  have three: "calculateBusETA stopsData now (Some rb) targetStopName = Some (Inr 0)"
    if "targetStopName \<notin> set (bus_stops rb)"
    using that by (rule calculateBusETA_absent)
  from zero one two three show ?thesis by blast
qed

theorem eta_walk_terminates_witness:
  "index moving_bus < length example_stops \<and> nextIndex moving_bus < length example_stops \<and>
   (\<exists>s\<in>set example_stops. name s = name (example_stops ! 0)) \<and>
   (\<exists>d k. calculateETA_loop example_stops (name (example_stops ! 0)) 0
             (index moving_bus) (nextIndex moving_bus) 0 = Some (Inr (d, 20 * k)) \<and>
          k < length example_stops) \<and>
   ''Z'' \<notin> set (bus_stops example_route_bus) \<and>
   calculateBusETA example_stops 0 (Some example_route_bus) ''Z'' = Some (Inr 0)"
proof -
  have h: "index moving_bus < length example_stops \<and>
           nextIndex moving_bus < length example_stops \<and>
           (\<exists>s\<in>set example_stops. name s = name (example_stops ! 0))"
    by (simp add: moving_bus_def example_stops_def)
  have z: "''Z'' \<notin> set (bus_stops example_route_bus)"
    by (simp add: example_route_bus_def)
  from eta_walk_terminates [where b = moving_bus and stops = example_stops
      and target = "example_stops ! 0" and targetStopName = "''Z''"
      and rb = example_route_bus and stopsData = example_stops and now = 0] h z
  show ?thesis by blast
qed

section \<open>The ETA from tick to tick\<close>








section \<open>Fares\<close>

text \<open>
  Claim C10.  In \<open>calculateFare\<close> a forward entry of 0 counts as missing: when
  \<open>faresData[from][to]\<close> is 0 and \<open>faresData[to][from]\<close> is not, the reverse fare is
  returned.  (The names are not empty; an empty name is the application's "nothing
  selected" and yields 0 before any lookup.)
\<close>

theorem zero_fare_treated_as_absent:
  assumes "fromStop \<noteq> []" and "toStop \<noteq> []"
    and "entry faresData fromStop toStop = Some 0"
    and "entry faresData toStop fromStop = Some w" and "w \<noteq> 0"
  shows "calculateFare faresData fromStop toStop = w"
  using assms by (simp add: calculateFare_def)

theorem zero_fare_treated_as_absent_witness:
  "''A'' \<noteq> [] \<and> ''B'' \<noteq> [] \<and> entry zero_fares ''A'' ''B'' = Some 0 \<and>
   entry zero_fares ''B'' ''A'' = Some 25 \<and> calculateFare zero_fares ''A'' ''B'' = 25"
  using zero_fare_treated_as_absent [of "''A''" "''B''" zero_fares 25]
  by (simp add: zero_fares_def entry_def)

text \<open>
  Claim C4, as stated: the fare lookup of the ticket purchase returns the forward entry
  when it is present and falls back to the reverse entry when it is absent.
  \<open>calculateFare\<close> returns the reverse fare 25 although the forward entry is present
  (with the value 0), and the purchase of the interval-timer variant has no fallback: on
  the table \<open>{A: {B: 15}}\<close> the fare from \<open>B\<close> to \<open>A\<close> throws.
\<close>

theorem fare_lookup_counterexample:
  "entry zero_fares ''A'' ''B'' = Some 0 \<and> calculateFare zero_fares ''A'' ''B'' = 25 \<and>
   buyTicket_fare example_fares ''B'' ''A'' = Inl TypeError"
  by (simp add: zero_fares_def example_fares_def entry_def calculateFare_def buyTicket_fare_def)

text \<open>
  Claim C4, amended.  For names that are not empty, \<open>calculateFare\<close> returns the forward
  entry when it is present and not 0; otherwise the reverse entry when that is present
  and not 0; and it returns 0 exactly when each direction is missing or 0.
\<close>

theorem fare_lookup_with_fallback:
  assumes "fromStop \<noteq> []" and "toStop \<noteq> []"
  shows "(\<forall>v. entry faresData fromStop toStop = Some v \<and> v \<noteq> 0 \<longrightarrow>
            calculateFare faresData fromStop toStop = v) \<and>
         (entry faresData fromStop toStop = None \<or> entry faresData fromStop toStop = Some 0 \<longrightarrow>
            (\<forall>w. entry faresData toStop fromStop = Some w \<and> w \<noteq> 0 \<longrightarrow>
               calculateFare faresData fromStop toStop = w)) \<and>
         (calculateFare faresData fromStop toStop = 0 \<longleftrightarrow>
            (entry faresData fromStop toStop = None \<or> entry faresData fromStop toStop = Some 0) \<and>
            (entry faresData toStop fromStop = None \<or> entry faresData toStop fromStop = Some 0))"
proof -
  have direct: "calculateFare faresData fromStop toStop = v"
    if "entry faresData fromStop toStop = Some v" "v \<noteq> 0" for v
    using that assms by (simp add: calculateFare_def)
  have reverse: "calculateFare faresData fromStop toStop = w"
    if "entry faresData fromStop toStop = None \<or> entry faresData fromStop toStop = Some 0"
       "entry faresData toStop fromStop = Some w" "w \<noteq> 0" for w
    using that assms by (auto simp add: calculateFare_def)
  have zero: "calculateFare faresData fromStop toStop = 0 \<longleftrightarrow>
            (entry faresData fromStop toStop = None \<or> entry faresData fromStop toStop = Some 0) \<and>
            (entry faresData toStop fromStop = None \<or> entry faresData toStop fromStop = Some 0)"
  proof (cases "entry faresData fromStop toStop")
    case None
    then show ?thesis using assms
      by (cases "entry faresData toStop fromStop") (auto simp add: calculateFare_def)
  next
    case (Some v)
    then show ?thesis using assms
      by (cases "entry faresData toStop fromStop") (auto simp add: calculateFare_def)
  qed
  from direct reverse zero show ?thesis by blast
qed

theorem fare_lookup_with_fallback_witness:
  "''B'' \<noteq> [] \<and> ''A'' \<noteq> [] \<and> entry example_fares ''B'' ''A'' = None \<and>
   entry example_fares ''A'' ''B'' = Some 15 \<and> calculateFare example_fares ''B'' ''A'' = 15"
  using fare_lookup_with_fallback [of "''B''" "''A''" example_fares]
  by (simp add: example_fares_def entry_def)

text \<open>The purchase of the interval-timer variant reads the forward entry only.\<close>

lemma buyTicket_fare_direct_only:
  "buyTicket_fare fares fromStop destination = Inr (Some v) \<longleftrightarrow>
   entry fares fromStop destination = Some v"
  by (simp add: buyTicket_fare_def entry_def split: option.splits)

end
